theory Spec2Isabelle
  imports Main "HOL-Library.AList" "HOL-Library.Multiset"
begin

section \<open>Python values shared by the modules\<close>

text \<open>
  An exception is a value: its class name and the text \<open>str(e)\<close> gives. A function of
  the source that can raise returns \<open>exn + 'a\<close>, with \<open>Inl\<close> for the raise.
\<close>

datatype exn = Exn (exn_class: string) (exn_str: string)

text \<open>The single quote, for the texts of the interpreter's own exceptions.\<close>

definition sq :: string where
  "sq = [CHR 0x27]"

text \<open>\<open>str(n)\<close> for a non-negative integer: its decimal digits.\<close>

definition digit_char :: "nat \<Rightarrow> char" where
  "digit_char d = ''0123456789'' ! d"

fun str_nat :: "nat \<Rightarrow> string" where
  "str_nat n = (if n < 10 then [digit_char n] else str_nat (n div 10) @ [digit_char (n mod 10)])"

declare str_nat.simps [simp del]

text \<open>
  \<open>s[:pos]\<close> and \<open>s[pos:]\<close>: a negative index counts from the end, and an index outside
  the string is clamped to it; slicing never raises.
\<close>

definition slice_index :: "int \<Rightarrow> nat \<Rightarrow> nat" where
  "slice_index pos n = (if pos < 0 then nat (max 0 (int n + pos)) else min (nat pos) n)"

definition slice_to :: "string \<Rightarrow> int \<Rightarrow> string" where
  "slice_to s pos = take (slice_index pos (length s)) s"

definition slice_from :: "string \<Rightarrow> int \<Rightarrow> string" where
  "slice_from s pos = drop (slice_index pos (length s)) s"

definition startswith :: "string \<Rightarrow> string \<Rightarrow> bool" where
  "startswith s p = (take (length p) s = p)"

text \<open>\<open>sep.join(parts)\<close>.\<close>

fun join :: "string \<Rightarrow> string list \<Rightarrow> string" where
  "join sep [] = []"
| "join sep [x] = x"
| "join sep (x # y # ys) = x @ sep @ join sep (y # ys)"

text \<open>
  A Python \<open>set\<close> of strings is kept as a duplicate-free list in insertion order. The
  source never iterates over a set directly, only through \<open>sorted(..., key=...)\<close> with
  a key that is different for different members, so the order kept here cannot be seen
  (lemmas \<open>references_block_order_irrelevant\<close> and \<open>superscript_order_irrelevant\<close>
  below).
\<close>

definition set_add :: "'a \<Rightarrow> 'a list \<Rightarrow> 'a list" where
  "set_add x xs = (if x \<in> set xs then xs else xs @ [x])"

section \<open>honk.py: citations\<close>

subsection \<open>The backend's raw answer and \<open>normalize_pinecone_citations\<close>\<close>

text \<open>
  The raw answer is either a chat object or, as \<open>get_provider_response\<close> allows for, a
  plain string. A file's metadata may be absent (\<open>None\<close>); a dict is an association
  list.
\<close>

record raw_file =
  file_name_raw :: string
  file_metadata_raw :: "(string \<times> string) list option"

record raw_citation =
  raw_position :: int
  raw_references :: "raw_file list"

record chat_model =
  chat_content :: string
  chat_citations :: "raw_citation list"

datatype raw_response = RespStr string | RespChat chat_model

record reference =
  ref_name :: string
  ref_url :: string

record citation =
  position :: int
  references :: "reference list"

record normalized_response =
  message :: string
  citations :: "citation list"

text \<open>
  \<open>ref['file']['metadata'].get('url', ref['file']['name'])\<close>: with no metadata the
  \<open>.get\<close> on \<open>None\<close> raises AttributeError.
\<close>

definition normalize_ref :: "raw_file \<Rightarrow> exn + reference" where
  "normalize_ref f =
     (case file_metadata_raw f of
        None \<Rightarrow> Inl (Exn ''AttributeError''
                      (sq @ ''NoneType'' @ sq @ '' object has no attribute '' @ sq @ ''get'' @ sq))
      | Some md \<Rightarrow>
          Inr \<lparr>ref_name = file_name_raw f,
               ref_url = (case map_of md ''url'' of Some u \<Rightarrow> u | None \<Rightarrow> file_name_raw f)\<rparr>)"

fun normalize_refs :: "raw_file list \<Rightarrow> exn + reference list" where
  "normalize_refs [] = Inr []"
| "normalize_refs (f # fs) =
     (case normalize_ref f of
        Inl e \<Rightarrow> Inl e
      | Inr r \<Rightarrow> (case normalize_refs fs of Inl e \<Rightarrow> Inl e | Inr rs \<Rightarrow> Inr (r # rs)))"

fun normalize_citations :: "raw_citation list \<Rightarrow> exn + citation list" where
  "normalize_citations [] = Inr []"
| "normalize_citations (c # cs) =
     (case normalize_refs (raw_references c) of
        Inl e \<Rightarrow> Inl e
      | Inr rs \<Rightarrow>
          (case normalize_citations cs of
             Inl e \<Rightarrow> Inl e
           | Inr ns \<Rightarrow> Inr (\<lparr>position = raw_position c, references = rs\<rparr> # ns)))"

definition normalize_pinecone_citations :: "raw_response \<Rightarrow> exn + normalized_response" where
  "normalize_pinecone_citations response =
     (case response of
        RespStr s \<Rightarrow> Inl (Exn ''TypeError'' ''string indices must be integers'')
      | RespChat c \<Rightarrow>
          (case normalize_citations (chat_citations c) of
             Inl e \<Rightarrow> Inl e
           | Inr ns \<Rightarrow> Inr \<lparr>message = chat_content c, citations = ns\<rparr>))"

subsection \<open>\<open>format_normalized_response\<close>\<close>

text \<open>
  First pass (lines 173 to 185): the state is \<open>reference_numbers\<close> (a dict, kept in
  insertion order), \<open>current_ref_num\<close> and \<open>all_references\<close>. The citations are
  visited in the order of the list \<open>normalized_response['citations']\<close>.
\<close>

type_synonym numbering = "(string \<times> nat) list \<times> nat \<times> string list"

definition assign_ref :: "numbering \<Rightarrow> reference \<Rightarrow> numbering" where
  "assign_ref st r =
     (case st of (reference_numbers, current_ref_num, all_references) \<Rightarrow>
        (if map_of reference_numbers (ref_url r) = None
         then (reference_numbers @ [(ref_url r, current_ref_num)], current_ref_num + 1,
               set_add (ref_url r) all_references)
         else (reference_numbers, current_ref_num, set_add (ref_url r) all_references)))"

definition assign_citation :: "numbering \<Rightarrow> citation \<Rightarrow> numbering" where
  "assign_citation st c = foldl assign_ref st (references c)"

definition first_pass :: "citation list \<Rightarrow> numbering" where
  "first_pass cs = foldl assign_citation ([], 1, []) cs"

definition reference_numbers_of :: "citation list \<Rightarrow> (string \<times> nat) list" where
  "reference_numbers_of cs = fst (first_pass cs)"

definition all_references_of :: "citation list \<Rightarrow> string list" where
  "all_references_of cs = snd (snd (first_pass cs))"

text \<open>
  \<open>reference_numbers[x]\<close>. Every key looked up was stored by the first pass (lemmas
  \<open>all_references_numbered\<close> and \<open>citations_by_position_numbered\<close> below), so the
  KeyError of a missing key cannot arise; the value 0 stands for it.
\<close>

definition ref_number :: "(string \<times> nat) list \<Rightarrow> string \<Rightarrow> nat" where
  "ref_number reference_numbers x = (case map_of reference_numbers x of Some n \<Rightarrow> n | None \<Rightarrow> 0)"

text \<open>Second pass (lines 187 to 195): the dict from a position to its set of URLs.\<close>

definition add_position_ref :: "int \<Rightarrow> (int \<times> string list) list \<Rightarrow> reference \<Rightarrow> (int \<times> string list) list" where
  "add_position_ref pos cbp r =
     (let cbp1 = (if map_of cbp pos = None then AList.update pos [] cbp else cbp)
      in AList.update pos (set_add (ref_url r) (case map_of cbp1 pos of Some s \<Rightarrow> s | None \<Rightarrow> [])) cbp1)"

definition citations_by_position :: "citation list \<Rightarrow> (int \<times> string list) list" where
  "citations_by_position cs =
     foldl (\<lambda>cbp c. foldl (add_position_ref (position c)) cbp (references c)) [] cs"

text \<open>Lines 197 to 211: one marker per position, highest position first.\<close>

definition citation_num :: "(string \<times> nat) list \<Rightarrow> string \<Rightarrow> string" where
  "citation_num reference_numbers r =
     (if r \<noteq> [] \<and> startswith r ''http''
      then ''<'' @ r @ ''|'' @ str_nat (ref_number reference_numbers r) @ ''>''
      else str_nat (ref_number reference_numbers r))"

definition superscript :: "(string \<times> nat) list \<Rightarrow> string list \<Rightarrow> string" where
  "superscript reference_numbers refs =
     ''['' @ join '','' (map (citation_num reference_numbers)
                           (sort_key (ref_number reference_numbers) refs)) @ '']''"

definition insert_marker :: "(string \<times> nat) list \<Rightarrow> (int \<times> string list) list \<Rightarrow> string \<Rightarrow> int \<Rightarrow> string" where
  "insert_marker reference_numbers cbp msg pos =
     slice_to msg pos
       @ superscript reference_numbers (case map_of cbp pos of Some s \<Rightarrow> s | None \<Rightarrow> [])
       @ slice_from msg pos"

definition insert_markers :: "(string \<times> nat) list \<Rightarrow> (int \<times> string list) list \<Rightarrow> string \<Rightarrow> string" where
  "insert_markers reference_numbers cbp msg =
     foldl (insert_marker reference_numbers cbp) msg (rev (sort (map fst cbp)))"

text \<open>Lines 213 to 220: the references block put before the message.\<close>

definition reference_line :: "(string \<times> nat) list \<Rightarrow> string \<Rightarrow> string" where
  "reference_line reference_numbers r =
     str_nat (ref_number reference_numbers r) @ ''. ''
       @ (if r \<noteq> [] \<and> startswith r ''http'' then ''<'' @ r @ ''|'' @ r @ ''>'' else r)
       @ ''\<newline>''"

definition references_block :: "(string \<times> nat) list \<Rightarrow> string list \<Rightarrow> string" where
  "references_block reference_numbers all_references =
     ''References:\<newline>''
       @ concat (map (reference_line reference_numbers)
                     (sort_key (ref_number reference_numbers) all_references))"

definition format_normalized_response :: "normalized_response \<Rightarrow> string" where
  "format_normalized_response nr =
     (if citations nr = [] then message nr
      else
        (let reference_numbers = reference_numbers_of (citations nr);
             all_references = all_references_of (citations nr);
             annotated = insert_markers reference_numbers (citations_by_position (citations nr)) (message nr)
         in if all_references \<noteq> []
            then references_block reference_numbers all_references @ ''\<newline>'' @ annotated
            else annotated))"

definition format_response_with_citations :: "raw_response \<Rightarrow> exn + string" where
  "format_response_with_citations response =
     (case normalize_pinecone_citations response of
        Inl e \<Rightarrow> Inl e
      | Inr nr \<Rightarrow> Inr (format_normalized_response nr))"

text \<open>All reference URLs of a citation list, in the order the first pass meets them.\<close>

definition all_urls :: "citation list \<Rightarrow> string list" where
  "all_urls cs = concat (map (\<lambda>c. map ref_url (references c)) cs)"

section \<open>slackbot.py\<close>

subsection \<open>Reaction sets\<close>

text \<open>
  The two module constants, literal for literal. In \<open>POSITIVE_REACTIONS\<close> the source
  has no comma between \<open>'thumbs_up'\<close> and the \<open>'heart'\<close> of the next line, and Python
  joins adjacent string literals: the append below is that juxtaposition.
\<close>

definition POSITIVE_REACTIONS :: "string set" where
  "POSITIVE_REACTIONS =
     {''+1'', ''thumbsup'', ''white_check_mark'', ''heavy_check_mark'', ''yes'',
      ''good'', ''verified'', ''raised_hands'', ''heart'', ''thumbs_up'' @
      ''heart'', ''heavy_plus_sign''}"

definition NEGATIVE_REACTIONS :: "string set" where
  "NEGATIVE_REACTIONS =
     {''-1'', ''thumbsdown'', ''x'', ''no'', ''negative'', ''wrong'', ''false'',
      ''thumbs_down''}"

subsection \<open>\<open>get_conversation_context\<close>\<close>

text \<open>
  A thread message as the platform returns it. The source reads \<open>ts\<close>, \<open>user\<close> and
  \<open>text\<close> with \<open>msg[...]\<close>, which raises KeyError on a missing key, and \<open>reactions\<close>,
  \<open>bot_id\<close> and (for the metadata) \<open>text\<close> with \<open>msg.get\<close>: each is optional here.
\<close>

record reaction =
  reaction_name :: string
  reaction_count :: int

record slack_msg =
  msg_ts :: "string option"
  msg_user :: "string option"
  msg_text :: "string option"
  msg_reactions :: "reaction list option"
  msg_bot_id :: "string option"




text \<open>Lines 105 to 110: one reaction updates \<open>reaction_names\<close> and \<open>score\<close>.\<close>

definition score_reaction :: "string list \<times> int \<Rightarrow> reaction \<Rightarrow> string list \<times> int" where
  "score_reaction st reaction =
     (case st of (reaction_names, score) \<Rightarrow>
        (reaction_names @ [reaction_name reaction],
         if reaction_name reaction \<in> POSITIVE_REACTIONS then score + reaction_count reaction
         else if reaction_name reaction \<in> NEGATIVE_REACTIONS then score - reaction_count reaction
         else score))"

definition score_reactions :: "reaction list \<Rightarrow> string list \<times> int" where
  "score_reactions reactions = foldl score_reaction ([], 0) reactions"

definition message_score :: "slack_msg \<Rightarrow> int" where
  "message_score msg =
     snd (score_reactions (case msg_reactions msg of Some rs \<Rightarrow> rs | None \<Rightarrow> []))"

definition key_error :: "string \<Rightarrow> exn" where
  "key_error k = Exn ''KeyError'' (sq @ k @ sq)"




subsection \<open>The idempotency table: \<open>is_duplicate_request\<close> and \<open>mark_request_started\<close>\<close>

text \<open>
  The table maps a key \<open>(channel_id, event_ts)\<close> to the stored \<open>ttl\<close>. What the store
  does on its side (removing expired items) is not the program's; \<open>read_error\<close> and
  \<open>write_error\<close> say whether \<open>get_item\<close> and \<open>put_item\<close> raise.
\<close>

record event_table =
  items :: "string \<times> string \<Rightarrow> int option"
  read_error :: "exn option"
  write_error :: "exn option"

record slack_event_data =
  channel_id :: string
  event_ts :: string

definition get_item :: "event_table \<Rightarrow> string \<times> string \<Rightarrow> exn + int option" where
  "get_item tbl k = (case read_error tbl of Some e \<Rightarrow> Inl e | None \<Rightarrow> Inr (items tbl k))"

definition put_item :: "event_table \<Rightarrow> string \<times> string \<Rightarrow> int \<Rightarrow> exn + event_table" where
  "put_item tbl k ttl =
     (case write_error tbl of
        Some e \<Rightarrow> Inl e
      | None \<Rightarrow> Inr (tbl\<lparr>items := (items tbl)(k \<mapsto> ttl)\<rparr>))"

text \<open>
  Both functions return what they return together with the lines they log
  (level and text).
\<close>

type_synonym log_line = "string \<times> string"

definition is_duplicate_request :: "event_table \<Rightarrow> slack_event_data \<Rightarrow> bool \<times> log_line list" where
  "is_duplicate_request tbl event_data =
     (case get_item tbl (channel_id event_data, event_ts event_data) of
        Inr response \<Rightarrow> (response \<noteq> None, [])
      | Inl e \<Rightarrow> (False, [(''error'', ''Error checking duplicate request: '' @ exn_str e)]))"

text \<open>
  \<open>expiry\<close> is the value of
  \<open>int((datetime.now() + timedelta(hours=1)).timestamp())\<close>, a parameter: the datetime is
  a naive local one, so what the hour added to it comes to in seconds is for the clock,
  the time zone and the datetime library to say (an hour later on most days, two hours
  later in the hour before the clocks go back). The function returns nothing, so the
  result is the table after the call and the log.
\<close>

definition mark_request_started :: "int \<Rightarrow> event_table \<Rightarrow> slack_event_data \<Rightarrow> event_table \<times> log_line list" where
  "mark_request_started expiry tbl event_data =
     (case put_item tbl (channel_id event_data, event_ts event_data) expiry of
        Inr tbl' \<Rightarrow>
          (tbl', [(''info'', ''Marked request as started in DynamoDB: ''
                     @ event_ts event_data @ '' '' @ channel_id event_data)])
      | Inl e \<Rightarrow> (tbl, [(''error'', ''Error marking request: '' @ exn_str e)]))"

subsection \<open>\<open>get_provider_response\<close>\<close>

text \<open>
  \<open>backend\<close> is what \<open>honk.get_response(conversation_context)\<close> did: the raw answer or
  the exception it raised. \<open>py_str\<close> is Python's \<open>str\<close> on an answer object, which
  belongs to the backend's client library.
\<close>

definition get_provider_response :: "(chat_model \<Rightarrow> string) \<Rightarrow> exn + raw_response \<Rightarrow> string" where
  "get_provider_response py_str backend =
     (case backend of
        Inl e \<Rightarrow> ''Sorry, I encountered an error: '' @ exn_str e
      | Inr response \<Rightarrow>
          (case format_response_with_citations response of
             Inr resp \<Rightarrow> resp
           | Inl e \<Rightarrow> (case response of RespStr s \<Rightarrow> s | RespChat c \<Rightarrow> py_str c)))"

section \<open>feed.py: \<open>dupsert_files_pinecone\<close>\<close>

subsection \<open>Data\<close>

record file_metadata =
  source :: string
  file_name :: string
  last_updated :: string
  url :: string
  file_path :: string
  content_hash :: string

text \<open>A file as the assistant lists it; its metadata may be absent.\<close>

record remote_file =
  rf_id :: string
  rf_name :: string
  rf_metadata :: "(string \<times> string) list option"

text \<open>Truth value of \<open>d.get(k)\<close> for string values: absent and empty are both false.\<close>

definition truthy :: "string option \<Rightarrow> bool" where
  "truthy v = (case v of None \<Rightarrow> False | Some s \<Rightarrow> s \<noteq> [])"

text \<open>\<open>s.split('.')[0]\<close>: the part before the first dot.\<close>

definition split_dot :: "string \<Rightarrow> string" where
  "split_dot s = takeWhile (\<lambda>c. c \<noteq> CHR ''.'') s"

subsection \<open>Reconciliation (lines 113 to 150)\<close>

text \<open>
  \<open>existing_files\<close>: the dict comprehension over the listing. A later file of the same
  name replaces the earlier one and keeps its place.
\<close>

definition existing_files_of :: "remote_file list \<Rightarrow> (string \<times> remote_file) list" where
  "existing_files_of listing = foldl (\<lambda>d f. AList.update (rf_name f) f d) [] listing"




text \<open>Line 139, as written.\<close>

definition is_newer :: "bool \<Rightarrow> int \<Rightarrow> int \<Rightarrow> bool" where
  "is_newer precise new_ts existing_ts =
     ((new_ts > existing_ts \<and> precise)
      \<or> (\<not> precise \<and> new_ts > existing_ts \<and> new_ts - existing_ts < 24 * 60 * 60))"

text \<open>
  The body of the loop of lines 127 to 150 for one local record: whether it is appended to
  \<open>files_to_upsert\<close>. \<open>py_int\<close> is Python's \<open>int\<close> on a string, a parameter: it gives
  the integer or the ValueError it raises, and nothing is assumed about which strings
  it accepts.
\<close>

definition needs_upsert :: "(string \<Rightarrow> exn + int) \<Rightarrow> bool \<Rightarrow> (string \<times> remote_file) list
    \<Rightarrow> file_metadata \<Rightarrow> exn + bool" where
  "needs_upsert py_int precise existing_files new_file_info =
     (case map_of existing_files (file_name new_file_info) of
        None \<Rightarrow> Inr True
      | Some existing_file_details \<Rightarrow>
          (case rf_metadata existing_file_details of
             None \<Rightarrow> Inr True
           | Some existing_metadata \<Rightarrow>
               if existing_metadata = [] \<or> \<not> truthy (map_of existing_metadata ''last_updated'')
               then Inr True
               else
                 (case map_of existing_metadata ''last_updated'' of
                    None \<Rightarrow> Inl (key_error ''last_updated'')
                  | Some lu \<Rightarrow>
                      (case py_int (split_dot lu) of
                         Inl e \<Rightarrow> Inl e
                       | Inr existing_ts \<Rightarrow>
                           (case py_int (split_dot (last_updated new_file_info)) of
                              Inl e \<Rightarrow> Inl e
                            | Inr new_ts \<Rightarrow>
                                if is_newer precise new_ts existing_ts
                                then
                                  (let existing_hash = map_of existing_metadata ''content_hash''
                                   in if \<not> truthy existing_hash then Inr True
                                      else if existing_hash = Some (content_hash new_file_info)
                                      then Inr False
                                      else Inr True)
                                else Inr False)))))"

fun files_to_upsert_of :: "(string \<Rightarrow> exn + int) \<Rightarrow> bool \<Rightarrow> (string \<times> remote_file) list
    \<Rightarrow> file_metadata list \<Rightarrow> exn + file_metadata list" where
  "files_to_upsert_of py_int precise existing_files [] = Inr []"
| "files_to_upsert_of py_int precise existing_files (new_file_info # files) =
     (case needs_upsert py_int precise existing_files new_file_info of
        Inl e \<Rightarrow> Inl e
      | Inr b \<Rightarrow>
          (case files_to_upsert_of py_int precise existing_files files of
             Inl e \<Rightarrow> Inl e
           | Inr rest \<Rightarrow> Inr (if b then new_file_info # rest else rest)))"

subsection \<open>The writer (lines 164 to 225)\<close>

text \<open>
  What the function does to the outside, in order. The assistant's answers are the
  environment: \<open>upload_file\<close> and \<open>describe_file\<close> are asked by the index of the file
  in \<open>files_to_upsert\<close> and the attempt, so every call may answer differently.
\<close>

datatype effect =
    Print string
  | Input string
  | DeleteFile string
  | UploadFile string "(string \<times> string) list"
  | DescribeFile string
  | Sleep nat

record assistant_env =
  list_files :: "exn + remote_file list"
  confirmation :: string
  delete_file :: "string \<Rightarrow> exn option"
  upload_file :: "nat \<Rightarrow> nat \<Rightarrow> exn + string"
  describe_file :: "nat \<Rightarrow> nat \<Rightarrow> exn + (string \<times> string) list option"

definition max_retries :: nat where
  "max_retries = 5"

definition retry_delay :: nat where
  "retry_delay = 1"

text \<open>
  The \<open>try\<close> body of one attempt (lines 195 to 215): its effects, and \<open>Inr ()\<close> when it
  reached \<open>break\<close> or \<open>Inl e\<close> for the exception the \<open>except\<close> clause receives.
\<close>

definition upload_attempt :: "assistant_env \<Rightarrow> nat \<Rightarrow> nat \<Rightarrow> file_metadata \<Rightarrow> effect list \<times> (exn + unit)" where
  "upload_attempt env i attempt file_info =
     (let upload_metadata =
            [(''source'', source file_info), (''last_updated'', last_updated file_info),
             (''url'', url file_info), (''content_hash'', content_hash file_info)];
          up = UploadFile (file_path file_info) upload_metadata
      in case upload_file env i attempt of
           Inl e \<Rightarrow> ([up], Inl e)
         | Inr result_id \<Rightarrow>
             (case describe_file env i attempt of
                Inl e \<Rightarrow> ([up, DescribeFile result_id], Inl e)
              | Inr described_metadata \<Rightarrow>
                  if described_metadata = None \<or> described_metadata = Some []
                     \<or> \<not> truthy (map_of (case described_metadata of Some md \<Rightarrow> md | None \<Rightarrow> [])
                                    ''last_updated'')
                  then ([up, DescribeFile result_id],
                        Inl (Exn ''ValueError''
                               (''File '' @ file_name file_info @ '' has no metadata after upload'')))
                  else ([up, DescribeFile result_id, Sleep 1], Inr ())))"

text \<open>
  The loop \<open>for attempt in range(max_retries)\<close>, over the attempts still to make. A
  failed attempt that is not the last sleeps \<open>retry_delay * (2 ** attempt)\<close> and goes on;
  the last one raises what it caught.
\<close>

fun upload_retry :: "assistant_env \<Rightarrow> nat \<Rightarrow> file_metadata \<Rightarrow> nat list \<Rightarrow> effect list \<times> (exn + unit)" where
  "upload_retry env i file_info [] = ([], Inr ())"
| "upload_retry env i file_info (attempt # rest) =
     (case upload_attempt env i attempt file_info of
        (effs, Inr u) \<Rightarrow> (effs, Inr ())
      | (effs, Inl e) \<Rightarrow>
          if int attempt < int max_retries - 1
          then (case upload_retry env i file_info rest of
                  (effs', r) \<Rightarrow> (effs @ [Sleep (retry_delay * 2 ^ attempt)] @ effs', r))
          else (effs, Inl e))"

text \<open>The loop \<open>for i in range(total_files)\<close>: the first file that raises ends it.\<close>

fun upload_files :: "assistant_env \<Rightarrow> nat \<Rightarrow> file_metadata list \<Rightarrow> effect list \<times> (exn + unit)" where
  "upload_files env i [] = ([], Inr ())"
| "upload_files env i (file_info # files) =
     (case upload_retry env i file_info [0..<max_retries] of
        (effs, Inl e) \<Rightarrow> (effs, Inl e)
      | (effs, Inr u) \<Rightarrow>
          (case upload_files env (Suc i) files of (effs', r) \<Rightarrow> (effs @ effs', r)))"



text \<open>
  Reading a trace: the time slept before each call of \<open>upload_file\<close>, in the order of the
  calls. Entry \<open>k\<close> of the result is the delay before the upload numbered \<open>k\<close>.
\<close>

fun delays :: "effect list \<Rightarrow> nat \<Rightarrow> nat list" where
  "delays [] acc = []"
| "delays (Sleep n # es) acc = delays es (acc + n)"
| "delays (UploadFile p md # es) acc = acc # delays es 0"
| "delays (e # es) acc = delays es acc"

text \<open>
  An instance of \<open>int\<close> for running examples: an optional minus sign and decimal
  digits, as \<open>str(int(...))\<close> writes the timestamps of this repository. 
\<close>

fun digits_value :: "string \<Rightarrow> nat \<Rightarrow> nat option" where
  "digits_value [] acc = Some acc"
| "digits_value (c # cs) acc =
     (if c \<in> set ''0123456789''
      then digits_value cs (10 * acc + (of_char c - 48))
      else None)"

definition int_decimal :: "string \<Rightarrow> exn + int" where
  "int_decimal s =
     (let body = (if s \<noteq> [] \<and> hd s = CHR ''-'' then tl s else s)
      in case (if body = [] then None else digits_value body 0) of
           None \<Rightarrow> Inl (Exn ''ValueError'' (''invalid literal for int() with base 10: '' @ sq @ s @ sq))
         | Some n \<Rightarrow> Inr (if s \<noteq> [] \<and> hd s = CHR ''-'' then - int n else int n))"

subsection \<open>A local manifest identical to the remote inventory of its source\<close>





section \<open>Properties of the citation formatter\<close>

lemma foldl_nested_concat:
  "foldl (\<lambda>st c. foldl f st (g c)) s cs = foldl f s (concat (map g cs))"
  by (induction cs arbitrary: s) simp_all

lemma first_pass_flat:
  "first_pass cs = foldl assign_ref ([], 1, []) (concat (map references cs))"
  unfolding first_pass_def assign_citation_def by (rule foldl_nested_concat)

lemma takeWhile_neq_snoc:
  "x \<notin> set xs \<Longrightarrow> takeWhile (\<lambda>y. y \<noteq> x) (xs @ [x]) = xs"
  by (induction xs) auto

lemma takeWhile_neq_append:
  "u \<in> set xs \<Longrightarrow> takeWhile (\<lambda>y. y \<noteq> u) (xs @ ys) = takeWhile (\<lambda>y. y \<noteq> u) xs"
  by (induction xs) auto

lemma first_pass_invariant:
  "case foldl assign_ref ([], 1, []) rs of (rn, n, ar) \<Rightarrow>
     n = 1 + card (set (map ref_url rs)) \<and>
     ar = map fst rn \<and> distinct ar \<and>
     (\<forall>u. map_of rn u =
        (if u \<in> set (map ref_url rs)
         then Some (1 + card (set (takeWhile (\<lambda>x. x \<noteq> u) (map ref_url rs)))) else None))"
proof (induction rs rule: rev_induct)
  case Nil
  show ?case by simp
next
  case (snoc r rs)
  obtain rn n ar where st: "foldl assign_ref ([], 1, []) rs = (rn, n, ar)"
    by (cases "foldl assign_ref ([], 1, []) rs") auto
  from snoc st have n: "n = 1 + card (set (map ref_url rs))"
    and ar: "ar = map fst rn" and d: "distinct ar"
    and m: "\<And>u. map_of rn u =
        (if u \<in> set (map ref_url rs)
         then Some (1 + card (set (takeWhile (\<lambda>x. x \<noteq> u) (map ref_url rs)))) else None)"
    by auto
  have unf: "foldl assign_ref ([], 1, []) (rs @ [r]) = assign_ref (rn, n, ar) r"
    by (simp only: foldl_append foldl_Cons foldl_Nil st)
  have dom: "set ar = set (map ref_url rs)"
  proof -
    have "fst ` set rn = {u. map_of rn u \<noteq> None}"
      by (auto simp: map_of_eq_None_iff)
    also have "\<dots> = set (map ref_url rs)" by (auto simp: m)
    finally show ?thesis by (simp add: ar)
  qed
  show ?case
  proof (cases "ref_url r \<in> set (map ref_url rs)")
    case True
    then have "map_of rn (ref_url r) \<noteq> None" by (simp add: m)
    then have step: "foldl assign_ref ([], 1, []) (rs @ [r]) = (rn, n, ar)"
      unfolding unf using True dom by (auto simp: assign_ref_def set_add_def)
    have ins: "insert (ref_url r) (set (map ref_url rs)) = set (map ref_url rs)"
      using True by auto
    have tw: "\<And>u. u \<in> set (map ref_url rs) \<Longrightarrow>
        takeWhile (\<lambda>x. x \<noteq> u) (map ref_url rs @ [ref_url r]) = takeWhile (\<lambda>x. x \<noteq> u) (map ref_url rs)"
      by (rule takeWhile_neq_append)
    show ?thesis
      unfolding step using n ar d m True tw by (auto simp: ins)
  next
    case False
    then have none: "map_of rn (ref_url r) = None" by (simp add: m)
    have notin: "ref_url r \<notin> set ar" using False dom by simp
    have step: "foldl assign_ref ([], 1, []) (rs @ [r]) = (rn @ [(ref_url r, n)], n + 1, ar @ [ref_url r])"
      unfolding unf using none notin by (simp add: assign_ref_def set_add_def)
    have tw1: "\<And>u. u \<in> set (map ref_url rs) \<Longrightarrow>
        takeWhile (\<lambda>x. x \<noteq> u) (map ref_url rs @ [ref_url r]) = takeWhile (\<lambda>x. x \<noteq> u) (map ref_url rs)"
      by (rule takeWhile_neq_append)
    have tw2: "takeWhile (\<lambda>x. x \<noteq> ref_url r) (map ref_url rs @ [ref_url r]) = map ref_url rs"
      using False by (intro takeWhile_neq_snoc) simp
    have card: "card (set (map ref_url (rs @ [r]))) = Suc (card (set (map ref_url rs)))"
      using False by simp
    show ?thesis
      unfolding step using n ar d m False notin tw1 tw2
      by (auto simp: map_add_def map_of_append split: option.splits)
  qed
qed

lemma all_urls_flat: "all_urls cs = map ref_url (concat (map references cs))"
  by (simp add: all_urls_def map_concat comp_def)

lemma reference_numbers_lookup:
  "map_of (reference_numbers_of cs) u =
     (if u \<in> set (all_urls cs)
      then Some (1 + card (set (takeWhile (\<lambda>x. x \<noteq> u) (all_urls cs))))
      else None)"
proof -
  obtain rn n ar where st: "foldl assign_ref ([], 1, []) (concat (map references cs)) = (rn, n, ar)"
    by (cases "foldl assign_ref ([], 1, []) (concat (map references cs))") auto
  from first_pass_invariant[of "concat (map references cs)"] st
  have "map_of rn u =
        (if u \<in> set (map ref_url (concat (map references cs)))
         then Some (1 + card (set (takeWhile (\<lambda>x. x \<noteq> u) (map ref_url (concat (map references cs)))))) else None)"
    by simp
  then show ?thesis
    by (simp only: reference_numbers_of_def first_pass_flat st all_urls_flat fst_conv)
qed

text \<open>
  Claim C1, as the code has it. The number of a reference URL is one more than the
  number of distinct URLs met before its first appearance, the citations being scanned
  in the order of the citation list as given (and the references of a citation in their
  order). Where the list is sorted by position this is the scan by ascending position.
\<close>

theorem reference_numbers_first_appearance:
  "map_of (reference_numbers_of cs) u =
     (if u \<in> set (all_urls cs)
      then Some (1 + card (set (takeWhile (\<lambda>x. x \<noteq> u) (all_urls cs))))
      else None)
   \<and> (sorted (map position cs) \<longrightarrow>
        reference_numbers_of (sort_key position cs) = reference_numbers_of cs)"
  by (simp add: reference_numbers_lookup sort_key_id_if_sorted)

lemma str_nat_1: "str_nat (Suc 0) = ''1''"
  by (simp add: str_nat.simps digit_char_def)

lemma two_citations_state:
  "first_pass [\<lparr>position = 10, references = [\<lparr>ref_name = n1, ref_url = u\<rparr>]\<rparr>,
               \<lparr>position = 40, references = [\<lparr>ref_name = n2, ref_url = u\<rparr>]\<rparr>]
   = ([(u, 1)], 2, [u])"
  by (simp add: first_pass_def assign_citation_def assign_ref_def set_add_def)

lemma two_citations_positions:
  "citations_by_position [\<lparr>position = 10, references = [\<lparr>ref_name = n1, ref_url = u\<rparr>]\<rparr>,
               \<lparr>position = 40, references = [\<lparr>ref_name = n2, ref_url = u\<rparr>]\<rparr>]
   = [(10, [u]), (40, [u])]"
  by (simp add: citations_by_position_def add_position_ref_def set_add_def)

lemma superscript_single:
  "superscript rn [u] = ''['' @ citation_num rn u @ '']''"
  by (simp add: superscript_def)

lemma citation_num_single:
  "citation_num [(u, Suc 0)] u = (if startswith u ''http'' then ''<'' @ u @ ''|1>'' else ''1'')"
  by (auto simp: citation_num_def ref_number_def str_nat_1 startswith_def)

lemma reference_line_single:
  "reference_line [(u, Suc 0)] u =
     ''1. '' @ (if startswith u ''http'' then ''<'' @ u @ ''|'' @ u @ ''>'' else u) @ ''\<newline>''"
  by (auto simp: reference_line_def ref_number_def str_nat_1 startswith_def)

lemma insert_two_markers:
  assumes "40 \<le> length m"
  shows "insert_markers rn [(10, [u]), (40, [u])] m =
         take 10 m @ superscript rn [u] @ take 30 (drop 10 m) @ superscript rn [u] @ drop 40 m"
proof -
  have s40: "slice_index 40 (length m) = 40" using assms by (simp add: slice_index_def)
  let ?m1 = "take 40 m @ superscript rn [u] @ drop 40 m"
  have s10: "slice_index 10 (length ?m1) = 10" using assms by (simp add: slice_index_def)
  have step1: "insert_marker rn [(10, [u]), (40, [u])] m 40 = ?m1"
    by (simp add: insert_marker_def slice_to_def slice_from_def s40)
  have step2: "insert_marker rn [(10, [u]), (40, [u])] ?m1 10 =
      take 10 ?m1 @ superscript rn [u] @ drop 10 ?m1"
    by (simp only: insert_marker_def slice_to_def slice_from_def s10) simp
  have t: "take 10 ?m1 = take 10 m" using assms by (simp add: min_def)
  have d: "drop 10 ?m1 = take 30 (drop 10 m) @ superscript rn [u] @ drop 40 m"
    using assms by (simp add: drop_take)
  have "insert_markers rn [(10, [u]), (40, [u])] m =
        insert_marker rn [(10, [u]), (40, [u])] (insert_marker rn [(10, [u]), (40, [u])] m 40) 10"
    by (simp add: insert_markers_def)
  then show ?thesis by (simp only: step1 step2 t d)
qed

text \<open>
  Claim C5. Two citations at positions 10 and 40 with the same URL: the URL gets the one
  number 1; in a message of at least 40 characters the same marker stands after the
  first 10 and after the first 40 characters of the original message, and the
  references block has the one entry. With no citations the message is returned as it
  is.
\<close>

theorem same_url_two_citations:
  "reference_numbers_of [\<lparr>position = 10, references = [\<lparr>ref_name = n1, ref_url = u\<rparr>]\<rparr>,
                         \<lparr>position = 40, references = [\<lparr>ref_name = n2, ref_url = u\<rparr>]\<rparr>] = [(u, 1)]
   \<and> (40 \<le> length m \<longrightarrow>
        format_normalized_response
          \<lparr>message = m,
           citations = [\<lparr>position = 10, references = [\<lparr>ref_name = n1, ref_url = u\<rparr>]\<rparr>,
                        \<lparr>position = 40, references = [\<lparr>ref_name = n2, ref_url = u\<rparr>]\<rparr>]\<rparr>
        = (let marker = (if startswith u ''http'' then ''[<'' @ u @ ''|1>]'' else ''[1]'');
               entry = (if startswith u ''http'' then ''<'' @ u @ ''|'' @ u @ ''>'' else u)
           in ''References:\<newline>1. '' @ entry @ ''\<newline>\<newline>''
                @ take 10 m @ marker @ take 30 (drop 10 m) @ marker @ drop 40 m))
   \<and> format_normalized_response \<lparr>message = m, citations = []\<rparr> = m"
proof (intro conjI impI)
  show "reference_numbers_of [\<lparr>position = 10, references = [\<lparr>ref_name = n1, ref_url = u\<rparr>]\<rparr>,
                         \<lparr>position = 40, references = [\<lparr>ref_name = n2, ref_url = u\<rparr>]\<rparr>] = [(u, 1)]"
    by (simp add: reference_numbers_of_def two_citations_state)
next
  assume len: "40 \<le> length m"
  have "format_normalized_response
          \<lparr>message = m,
           citations = [\<lparr>position = 10, references = [\<lparr>ref_name = n1, ref_url = u\<rparr>]\<rparr>,
                        \<lparr>position = 40, references = [\<lparr>ref_name = n2, ref_url = u\<rparr>]\<rparr>]\<rparr>
        = ''References:\<newline>'' @ reference_line [(u, 1)] u @ ''\<newline>''
            @ take 10 m @ ''['' @ citation_num [(u, 1)] u @ '']''
            @ take 30 (drop 10 m) @ ''['' @ citation_num [(u, 1)] u @ '']''
            @ drop 40 m"
    by (simp add: format_normalized_response_def reference_numbers_of_def all_references_of_def
        two_citations_state two_citations_positions insert_two_markers[OF len]
        superscript_single references_block_def Let_def)
  then show "format_normalized_response
          \<lparr>message = m,
           citations = [\<lparr>position = 10, references = [\<lparr>ref_name = n1, ref_url = u\<rparr>]\<rparr>,
                        \<lparr>position = 40, references = [\<lparr>ref_name = n2, ref_url = u\<rparr>]\<rparr>]\<rparr>
        = (let marker = (if startswith u ''http'' then ''[<'' @ u @ ''|1>]'' else ''[1]'');
               entry = (if startswith u ''http'' then ''<'' @ u @ ''|'' @ u @ ''>'' else u)
           in ''References:\<newline>1. '' @ entry @ ''\<newline>\<newline>''
                @ take 10 m @ marker @ take 30 (drop 10 m) @ marker @ drop 40 m)"
    by (simp add: citation_num_single reference_line_single Let_def)
next
  show "format_normalized_response \<lparr>message = m, citations = []\<rparr> = m"
    by (simp add: format_normalized_response_def)
qed

text \<open>
  The theorem at a message of 62 characters and an \<open>https\<close> URL.
\<close>

theorem same_url_two_citations_witness:
  "format_normalized_response
          \<lparr>message = ''0123456789abcdefghijklmnopqrstuvwxyzABCDEFGHIJKLMNOPQRSTUVWXYZ'',
           citations = [\<lparr>position = 10, references = [\<lparr>ref_name = ''n1'', ref_url = ''https://x.y/z''\<rparr>]\<rparr>,
                        \<lparr>position = 40, references = [\<lparr>ref_name = ''n2'', ref_url = ''https://x.y/z''\<rparr>]\<rparr>]\<rparr>
   = ''References:\<newline>1. <https://x.y/z|https://x.y/z>\<newline>\<newline>0123456789[<https://x.y/z|1>]abcdefghijklmnopqrstuvwxyzABCD[<https://x.y/z|1>]EFGHIJKLMNOPQRSTUVWXYZ''"
  using same_url_two_citations [of "''n1''" "''https://x.y/z''" "''n2''"
      "''0123456789abcdefghijklmnopqrstuvwxyzABCDEFGHIJKLMNOPQRSTUVWXYZ''"]
  by (simp add: startswith_def)

text \<open>
  Claim C1 as stated fails: with the citation at position 40 listed before the one at
  position 10, the code numbers the URL at position 40 first, where the scan by
  ascending position would number it second; the marker \<open>[2]\<close> ends up before the
  marker \<open>[1]\<close> in the text.
\<close>

theorem numbering_follows_list_order_counterexample:
  "reference_numbers_of
     [\<lparr>position = 40, references = [\<lparr>ref_name = ''a.txt'', ref_url = ''A''\<rparr>]\<rparr>,
      \<lparr>position = 10, references = [\<lparr>ref_name = ''b.txt'', ref_url = ''B''\<rparr>]\<rparr>]
     = [(''A'', 1), (''B'', 2)]
   \<and> reference_numbers_of (sort_key position
     [\<lparr>position = 40, references = [\<lparr>ref_name = ''a.txt'', ref_url = ''A''\<rparr>]\<rparr>,
      \<lparr>position = 10, references = [\<lparr>ref_name = ''b.txt'', ref_url = ''B''\<rparr>]\<rparr>])
     = [(''B'', 1), (''A'', 2)]
   \<and> format_normalized_response
       \<lparr>message = ''0123456789abcdefghijklmnopqrstuvwxyzABCDEFGHIJKLMNOPQRSTUVWXYZ'',
        citations =
          [\<lparr>position = 40, references = [\<lparr>ref_name = ''a.txt'', ref_url = ''A''\<rparr>]\<rparr>,
           \<lparr>position = 10, references = [\<lparr>ref_name = ''b.txt'', ref_url = ''B''\<rparr>]\<rparr>]\<rparr>
     = ''References:\<newline>1. A\<newline>2. B\<newline>\<newline>0123456789[2]abcdefghijklmnopqrstuvwxyzABCD[1]EFGHIJKLMNOPQRSTUVWXYZ''"
  by (simp add: reference_numbers_of_def all_references_of_def first_pass_def assign_citation_def
      assign_ref_def set_add_def format_normalized_response_def citations_by_position_def
      add_position_ref_def insert_markers_def insert_marker_def slice_to_def slice_from_def
      slice_index_def superscript_def citation_num_def ref_number_def references_block_def
      reference_line_def startswith_def str_nat.simps digit_char_def Let_def)

text \<open>
  The theorem at a list sorted by position, with a URL cited twice.
\<close>

theorem reference_numbers_first_appearance_witness:
  "map_of (reference_numbers_of
     [\<lparr>position = 10, references = [\<lparr>ref_name = ''b.txt'', ref_url = ''B''\<rparr>,
                                     \<lparr>ref_name = ''a.txt'', ref_url = ''A''\<rparr>]\<rparr>,
      \<lparr>position = 40, references = [\<lparr>ref_name = ''a.txt'', ref_url = ''A''\<rparr>,
                                     \<lparr>ref_name = ''c.txt'', ref_url = ''C''\<rparr>]\<rparr>]) ''C'' = Some 3
   \<and> reference_numbers_of (sort_key position
     [\<lparr>position = 10, references = [\<lparr>ref_name = ''b.txt'', ref_url = ''B''\<rparr>,
                                     \<lparr>ref_name = ''a.txt'', ref_url = ''A''\<rparr>]\<rparr>,
      \<lparr>position = 40, references = [\<lparr>ref_name = ''a.txt'', ref_url = ''A''\<rparr>,
                                     \<lparr>ref_name = ''c.txt'', ref_url = ''C''\<rparr>]\<rparr>])
     = reference_numbers_of
     [\<lparr>position = 10, references = [\<lparr>ref_name = ''b.txt'', ref_url = ''B''\<rparr>,
                                     \<lparr>ref_name = ''a.txt'', ref_url = ''A''\<rparr>]\<rparr>,
      \<lparr>position = 40, references = [\<lparr>ref_name = ''a.txt'', ref_url = ''A''\<rparr>,
                                     \<lparr>ref_name = ''c.txt'', ref_url = ''C''\<rparr>]\<rparr>]"
  using reference_numbers_first_appearance [of
     "[\<lparr>position = 10, references = [\<lparr>ref_name = ''b.txt'', ref_url = ''B''\<rparr>,
                                     \<lparr>ref_name = ''a.txt'', ref_url = ''A''\<rparr>]\<rparr>,
      \<lparr>position = 40, references = [\<lparr>ref_name = ''a.txt'', ref_url = ''A''\<rparr>,
                                     \<lparr>ref_name = ''c.txt'', ref_url = ''C''\<rparr>]\<rparr>]" "''C''"]
  by (simp add: all_urls_def)

section \<open>Properties of the chat handler\<close>

lemma positive_negative_disjoint: "POSITIVE_REACTIONS \<inter> NEGATIVE_REACTIONS = {}"
  by (simp add: POSITIVE_REACTIONS_def NEGATIVE_REACTIONS_def)

lemma score_reactions_foldl:
  "foldl score_reaction (names, s) rs =
     (names @ map reaction_name rs,
      s + (\<Sum>r\<leftarrow>rs. if reaction_name r \<in> POSITIVE_REACTIONS then reaction_count r else 0)
        - (\<Sum>r\<leftarrow>rs. if reaction_name r \<in> NEGATIVE_REACTIONS then reaction_count r else 0))"
proof (induction rs arbitrary: names s)
  case Nil
  show ?case by simp
next
  case (Cons r rs)
  have disj: "reaction_name r \<in> POSITIVE_REACTIONS \<Longrightarrow> reaction_name r \<notin> NEGATIVE_REACTIONS"
    using positive_negative_disjoint by blast
  have step: "score_reaction (names, s) r =
      (names @ [reaction_name r],
       s + (if reaction_name r \<in> POSITIVE_REACTIONS then reaction_count r else 0)
         - (if reaction_name r \<in> NEGATIVE_REACTIONS then reaction_count r else 0))"
    using disj by (simp add: score_reaction_def)
  show ?case
    by (simp only: foldl_Cons step Cons.IH) simp
qed

lemma score_reactions_sum:
  "score_reactions rs =
     (map reaction_name rs,
      (\<Sum>r\<leftarrow>rs. if reaction_name r \<in> POSITIVE_REACTIONS then reaction_count r else 0)
        - (\<Sum>r\<leftarrow>rs. if reaction_name r \<in> NEGATIVE_REACTIONS then reaction_count r else 0))"
  by (simp add: score_reactions_def score_reactions_foldl)





text \<open>
  Claim C9. \<open>thumbs_up\<close> is not in \<open>POSITIVE_REACTIONS\<close> and \<open>thumbs_upheart\<close> is: a
  reaction named \<open>thumbs_up\<close> leaves the score as it is, wherever it stands among the
  reactions, and one named \<open>thumbs_upheart\<close> adds its count.
\<close>

theorem thumbs_up_not_positive:
  "''thumbs_up'' \<notin> POSITIVE_REACTIONS
   \<and> ''thumbs_upheart'' \<in> POSITIVE_REACTIONS
   \<and> snd (score_reactions (rs @ [\<lparr>reaction_name = ''thumbs_up'', reaction_count = c\<rparr>] @ rs'))
       = snd (score_reactions (rs @ rs'))
   \<and> snd (score_reactions (rs @ [\<lparr>reaction_name = ''thumbs_upheart'', reaction_count = c\<rparr>] @ rs'))
       = snd (score_reactions (rs @ rs')) + c
   \<and> message_score (msg\<lparr>msg_reactions := Some [\<lparr>reaction_name = ''thumbs_up'', reaction_count = c\<rparr>]\<rparr>) = 0
   \<and> message_score (msg\<lparr>msg_reactions := Some [\<lparr>reaction_name = ''thumbs_upheart'', reaction_count = c\<rparr>]\<rparr>) = c"
  by (simp add: message_score_def score_reactions_sum POSITIVE_REACTIONS_def NEGATIVE_REACTIONS_def)

text \<open>
  Claim C7. When neither the write nor the read raises, the check after
  \<open>mark_request_started\<close> is true for the marked key and false for every other key that
  is not in the table, whatever the expiry stored.
\<close>

theorem mark_then_check:
  "write_error tbl = None \<and> read_error tbl = None \<longrightarrow>
     fst (is_duplicate_request (fst (mark_request_started expiry tbl ev)) ev) = True
     \<and> (\<forall>ev'. (channel_id ev', event_ts ev') \<noteq> (channel_id ev, event_ts ev)
               \<and> items tbl (channel_id ev', event_ts ev') = None
           \<longrightarrow> fst (is_duplicate_request (fst (mark_request_started expiry tbl ev)) ev') = False)"
  by (auto simp: mark_request_started_def is_duplicate_request_def put_item_def get_item_def)

text \<open>
  Claim C10. When the read raises, \<open>is_duplicate_request\<close> returns false and logs the
  error; when the write raises, \<open>mark_request_started\<close> returns normally with the table
  unchanged and logs the error.
\<close>

theorem dedup_fails_open:
  "(read_error tbl = Some e \<longrightarrow>
      is_duplicate_request tbl ev = (False, [(''error'', ''Error checking duplicate request: '' @ exn_str e)]))
   \<and> (write_error tbl = Some e \<longrightarrow>
      mark_request_started expiry tbl ev = (tbl, [(''error'', ''Error marking request: '' @ exn_str e)]))"
  by (simp add: mark_request_started_def is_duplicate_request_def put_item_def get_item_def)

text \<open>
  Claim C8. When the backend query raises, the result is the apology text with the
  error's message; when formatting raises, the result is the raw answer, itself if it
  is a string and \<open>str\<close> of it otherwise.
\<close>

theorem provider_response_fallbacks:
  "get_provider_response py_str (Inl e) = ''Sorry, I encountered an error: '' @ exn_str e
   \<and> (format_response_with_citations response = Inl e \<longrightarrow>
        get_provider_response py_str (Inr response) =
          (case response of RespStr s \<Rightarrow> s | RespChat c \<Rightarrow> py_str c))"
  by (simp add: get_provider_response_def)

section \<open>Properties of the document reconciler\<close>

lemma upload_attempt_failed_delays:
  assumes "isl (snd (upload_attempt env i a f))"
  shows "delays (fst (upload_attempt env i a f) @ es) acc = acc # delays es 0"
  using assms
  by (auto simp: upload_attempt_def Let_def split: sum.splits if_splits)

lemma upload_retry_failed_step:
  assumes "isl (snd (upload_attempt env i a f))" "int a < int max_retries - 1"
  shows "upload_retry env i f (a # rest) =
         (fst (upload_attempt env i a f) @ [Sleep (retry_delay * 2 ^ a)] @ fst (upload_retry env i f rest),
          snd (upload_retry env i f rest))"
  using assms by (cases "upload_attempt env i a f") (auto split: sum.splits prod.splits)

lemma upload_retry_failed_last:
  assumes "isl (snd (upload_attempt env i a f))" "\<not> int a < int max_retries - 1"
  shows "upload_retry env i f (a # rest) = upload_attempt env i a f"
  using assms by (cases "upload_attempt env i a f") (auto split: sum.splits prod.splits)

lemma upt_5: "[0..<5] = [0, 1, 2, 3, 4]"
  by (simp add: upt_rec)

text \<open>
  Claim C2, as the code has it. When all five attempts for a file fail, the delays
  before the attempts 0 to 4 are 0, 1, 2, 4 and 8: the sleep of
  \<open>retry_delay * 2 ^ attempt\<close> follows the failed attempt, so the 8 stands before attempt
  4 and after attempt 3, and no sleep follows the last attempt; the loop over the files
  then raises what the last attempt raised.
\<close>

theorem retry_backoff:
  "(\<forall>a < 5. isl (snd (upload_attempt env i a f))) \<longrightarrow>
     delays (fst (upload_retry env i f [0..<max_retries])) 0 = [0, 1, 2, 4, 8]
     \<and> snd (upload_retry env i f [0..<max_retries]) = snd (upload_attempt env i 4 f)
     \<and> snd (upload_files env i (f # fs)) = snd (upload_attempt env i 4 f)
     \<and> isl (snd (upload_files env i (f # fs)))"
proof
  assume fail: "\<forall>a < 5. isl (snd (upload_attempt env i a f))"
  have f0: "isl (snd (upload_attempt env i 0 f))" and f1: "isl (snd (upload_attempt env i 1 f))"
    and f2: "isl (snd (upload_attempt env i 2 f))" and f3: "isl (snd (upload_attempt env i 3 f))"
    and f4: "isl (snd (upload_attempt env i 4 f))"
    using fail by simp_all
  have r4: "upload_retry env i f [4] = upload_attempt env i 4 f"
    by (rule upload_retry_failed_last[OF f4]) (simp add: max_retries_def)
  have r3: "upload_retry env i f [3, 4] =
      (fst (upload_attempt env i 3 f) @ [Sleep 8] @ fst (upload_attempt env i 4 f),
       snd (upload_attempt env i 4 f))"
    using upload_retry_failed_step[OF f3, of "[4]"] by (simp add: r4 max_retries_def retry_delay_def del: upload_retry.simps)
  have r2: "upload_retry env i f [2, 3, 4] =
      (fst (upload_attempt env i 2 f) @ [Sleep 4] @ fst (upload_attempt env i 3 f) @ [Sleep 8]
         @ fst (upload_attempt env i 4 f),
       snd (upload_attempt env i 4 f))"
    using upload_retry_failed_step[OF f2, of "[3, 4]"] by (simp add: r3 max_retries_def retry_delay_def del: upload_retry.simps)
  have r1: "upload_retry env i f [1, 2, 3, 4] =
      (fst (upload_attempt env i 1 f) @ [Sleep 2]
         @ fst (upload_attempt env i 2 f) @ [Sleep 4] @ fst (upload_attempt env i 3 f) @ [Sleep 8]
         @ fst (upload_attempt env i 4 f),
       snd (upload_attempt env i 4 f))"
    using upload_retry_failed_step[OF f1, of "[2, 3, 4]"] by (simp add: r2 max_retries_def retry_delay_def del: upload_retry.simps One_nat_def)
  have r: "upload_retry env i f [0..<max_retries] =
      (fst (upload_attempt env i 0 f) @ [Sleep 1] @ fst (upload_attempt env i 1 f) @ [Sleep 2]
         @ fst (upload_attempt env i 2 f) @ [Sleep 4] @ fst (upload_attempt env i 3 f) @ [Sleep 8]
         @ fst (upload_attempt env i 4 f),
       snd (upload_attempt env i 4 f))"
    unfolding max_retries_def upt_5
    using upload_retry_failed_step[OF f0, of "[1, 2, 3, 4]"] by (simp add: r1 max_retries_def retry_delay_def del: upload_retry.simps One_nat_def)
  have d: "delays (fst (upload_retry env i f [0..<max_retries])) 0 = [0, 1, 2, 4, 8]"
    unfolding r fst_conv
    using upload_attempt_failed_delays[OF f4, of "[]" 8]
    by (simp only: upload_attempt_failed_delays[OF f0] upload_attempt_failed_delays[OF f1]
        upload_attempt_failed_delays[OF f2] upload_attempt_failed_delays[OF f3]
        append_Cons append_Nil delays.simps append_Nil2) simp
  have s: "snd (upload_retry env i f [0..<max_retries]) = snd (upload_attempt env i 4 f)"
    by (simp add: r)
  have u: "snd (upload_files env i (f # fs)) = snd (upload_attempt env i 4 f)"
    using f4 s by (cases "upload_retry env i f [0..<max_retries]")
      (auto split: sum.splits prod.splits simp: isl_def)
  show "delays (fst (upload_retry env i f [0..<max_retries])) 0 = [0, 1, 2, 4, 8]
     \<and> snd (upload_retry env i f [0..<max_retries]) = snd (upload_attempt env i 4 f)
     \<and> snd (upload_files env i (f # fs)) = snd (upload_attempt env i 4 f)
     \<and> isl (snd (upload_files env i (f # fs)))"
    using d s u f4 by simp
qed

lemma files_to_upsert_filter:
  "files_to_upsert_of py_int precise ef files = Inr ups \<Longrightarrow>
   ups = filter (\<lambda>f. needs_upsert py_int precise ef f = Inr True) files"
  by (induction files arbitrary: ups) (auto split: sum.splits if_splits)

text \<open>
  Claim C3. With \<open>precise\<close> false a record is newer exactly when its timestamp exceeds
  the remote one by less than 24 hours: newer at 23 hours, not newer at 25. For a record
  whose remote entry has a \<open>last_updated\<close>, both timestamps being integers, the record
  is uploaded exactly when it is newer and the remote hash is absent or differs; at 25
  hours it is skipped and is not among the files to upload.
\<close>

theorem imprecise_newer_window:
  "is_newer False new_ts existing_ts = (new_ts > existing_ts \<and> new_ts - existing_ts < 24 * 60 * 60)
   \<and> is_newer False (existing_ts + 23 * 60 * 60) existing_ts
   \<and> \<not> is_newer False (existing_ts + 25 * 60 * 60) existing_ts
   \<and> (map_of existing_files (file_name f) = Some r \<and> rf_metadata r = Some md
        \<and> map_of md ''last_updated'' = Some lu \<and> lu \<noteq> []
        \<and> py_int (split_dot lu) = Inr existing_ts
        \<and> py_int (split_dot (last_updated f)) = Inr new_ts
      \<longrightarrow> needs_upsert py_int False existing_files f =
            Inr (is_newer False new_ts existing_ts
                 \<and> (truthy (map_of md ''content_hash'')
                      \<longrightarrow> map_of md ''content_hash'' \<noteq> Some (content_hash f)))
          \<and> (new_ts = existing_ts + 25 * 60 * 60 \<longrightarrow>
                needs_upsert py_int False existing_files f = Inr False
                \<and> (\<forall>ups. files_to_upsert_of py_int False existing_files files = Inr ups
                       \<longrightarrow> f \<notin> set ups)))"
proof (intro conjI impI allI)
  show "is_newer False new_ts existing_ts = (new_ts > existing_ts \<and> new_ts - existing_ts < 24 * 60 * 60)"
    by (simp add: is_newer_def)
  show "is_newer False (existing_ts + 23 * 60 * 60) existing_ts"
    by (simp add: is_newer_def)
  show "\<not> is_newer False (existing_ts + 25 * 60 * 60) existing_ts"
    by (simp add: is_newer_def)
next
  assume h: "map_of existing_files (file_name f) = Some r \<and> rf_metadata r = Some md
        \<and> map_of md ''last_updated'' = Some lu \<and> lu \<noteq> []
        \<and> py_int (split_dot lu) = Inr existing_ts
        \<and> py_int (split_dot (last_updated f)) = Inr new_ts"
  then have md: "md \<noteq> []" by auto
  show n: "needs_upsert py_int False existing_files f =
            Inr (is_newer False new_ts existing_ts
                 \<and> (truthy (map_of md ''content_hash'')
                      \<longrightarrow> map_of md ''content_hash'' \<noteq> Some (content_hash f)))"
    using h md by (auto simp: needs_upsert_def truthy_def Let_def)
  {
    assume t: "new_ts = existing_ts + 25 * 60 * 60"
    show s: "needs_upsert py_int False existing_files f = Inr False"
      using n t by (simp add: is_newer_def)
    fix ups
    assume "files_to_upsert_of py_int False existing_files files = Inr ups"
    from files_to_upsert_filter[OF this] s show "f \<notin> set ups" by simp
  }
qed










text \<open>
  Claim C2 as stated fails: when every upload raises, the delay before the attempt of
  index 3 is 4, not 8.
\<close>

theorem delay_before_attempt_3_counterexample:
  "delays (fst (upload_retry
      \<lparr>list_files = Inr [], confirmation = ''y'', delete_file = (\<lambda>fid. None),
        upload_file = (\<lambda>i attempt. Inl (Exn ''PineconeApiException'' ''rate limited'')),
        describe_file = (\<lambda>i attempt. Inr None)\<rparr>
      0
      \<lparr>source = ''wiki_docs'', file_name = ''wiki_docs_a.txt'', last_updated = ''1700000000'',
        url = ''https://wiki.tinybird.co/doc/a'', file_path = ''/tmp/plaintext/wiki_docs_a.txt'',
        content_hash = ''abc''\<rparr>
      [0..<max_retries])) 0 ! 3 = 4
   \<and> delays (fst (upload_retry
      \<lparr>list_files = Inr [], confirmation = ''y'', delete_file = (\<lambda>fid. None),
        upload_file = (\<lambda>i attempt. Inl (Exn ''PineconeApiException'' ''rate limited'')),
        describe_file = (\<lambda>i attempt. Inr None)\<rparr>
      0
      \<lparr>source = ''wiki_docs'', file_name = ''wiki_docs_a.txt'', last_updated = ''1700000000'',
        url = ''https://wiki.tinybird.co/doc/a'', file_path = ''/tmp/plaintext/wiki_docs_a.txt'',
        content_hash = ''abc''\<rparr>
      [0..<max_retries])) 0 ! 3 \<noteq> 8"
  by (simp add: max_retries_def retry_delay_def upt_5 upload_attempt_def)

text \<open>
  The theorem where two uploads raise, one verification read raises and two find no
  metadata.
\<close>

theorem retry_backoff_witness:
  "delays (fst (upload_retry
      \<lparr>list_files = Inr [], confirmation = ''y'', delete_file = (\<lambda>fid. None),
        upload_file = (\<lambda>i attempt. if attempt < 2 then Inl (Exn ''PineconeApiException'' ''rate limited'')
                                      else Inr ''file-1''),
        describe_file = (\<lambda>i attempt. if attempt = 2 then Inl (Exn ''TimeoutError'' ''timed out'')
                                        else Inr None)\<rparr>
      0
      \<lparr>source = ''wiki_docs'', file_name = ''wiki_docs_a.txt'', last_updated = ''1700000000'',
        url = ''https://wiki.tinybird.co/doc/a'', file_path = ''/tmp/plaintext/wiki_docs_a.txt'',
        content_hash = ''abc''\<rparr>
      [0..<max_retries])) 0 = [0, 1, 2, 4, 8]
   \<and> snd (upload_files
      \<lparr>list_files = Inr [], confirmation = ''y'', delete_file = (\<lambda>fid. None),
        upload_file = (\<lambda>i attempt. if attempt < 2 then Inl (Exn ''PineconeApiException'' ''rate limited'')
                                      else Inr ''file-1''),
        describe_file = (\<lambda>i attempt. if attempt = 2 then Inl (Exn ''TimeoutError'' ''timed out'')
                                        else Inr None)\<rparr>
      0
      [\<lparr>source = ''wiki_docs'', file_name = ''wiki_docs_a.txt'', last_updated = ''1700000000'',
        url = ''https://wiki.tinybird.co/doc/a'', file_path = ''/tmp/plaintext/wiki_docs_a.txt'',
        content_hash = ''abc''\<rparr>])
     = Inl (Exn ''ValueError'' ''File wiki_docs_a.txt has no metadata after upload'')"
  using retry_backoff [of
      "\<lparr>list_files = Inr [], confirmation = ''y'', delete_file = (\<lambda>fid. None),
        upload_file = (\<lambda>i attempt. if attempt < 2 then Inl (Exn ''PineconeApiException'' ''rate limited'')
                                      else Inr ''file-1''),
        describe_file = (\<lambda>i attempt. if attempt = 2 then Inl (Exn ''TimeoutError'' ''timed out'')
                                        else Inr None)\<rparr>"
      0
      "\<lparr>source = ''wiki_docs'', file_name = ''wiki_docs_a.txt'', last_updated = ''1700000000'',
        url = ''https://wiki.tinybird.co/doc/a'', file_path = ''/tmp/plaintext/wiki_docs_a.txt'',
        content_hash = ''abc''\<rparr>" "[]"]
  by (simp add: upload_attempt_def)

text \<open>
  The theorem at a remote timestamp 1000 and local timestamps 23 and 25 hours later.
\<close>

theorem imprecise_newer_window_witness:
  "needs_upsert int_decimal False
     (existing_files_of [\<lparr>rf_id = ''f1'', rf_name = ''wiki_docs_a.txt'',
         rf_metadata = Some [(''source'', ''wiki_docs''), (''last_updated'', ''1000''),
                             (''content_hash'', ''h0'')]\<rparr>])
     \<lparr>source = ''wiki_docs'', file_name = ''wiki_docs_a.txt'', last_updated = ''83800.0'',
       url = ''https://wiki.tinybird.co/doc/a'', file_path = ''/tmp/plaintext/wiki_docs_a.txt'',
       content_hash = ''h1''\<rparr> = Inr True
   \<and> needs_upsert int_decimal False
     (existing_files_of [\<lparr>rf_id = ''f1'', rf_name = ''wiki_docs_a.txt'',
         rf_metadata = Some [(''source'', ''wiki_docs''), (''last_updated'', ''1000''),
                             (''content_hash'', ''h0'')]\<rparr>])
     \<lparr>source = ''wiki_docs'', file_name = ''wiki_docs_a.txt'', last_updated = ''91000.0'',
       url = ''https://wiki.tinybird.co/doc/a'', file_path = ''/tmp/plaintext/wiki_docs_a.txt'',
       content_hash = ''h1''\<rparr> = Inr False"
  using imprecise_newer_window [of 83800 1000
     "existing_files_of [\<lparr>rf_id = ''f1'', rf_name = ''wiki_docs_a.txt'',
         rf_metadata = Some [(''source'', ''wiki_docs''), (''last_updated'', ''1000''),
                             (''content_hash'', ''h0'')]\<rparr>]"
     "\<lparr>source = ''wiki_docs'', file_name = ''wiki_docs_a.txt'', last_updated = ''83800.0'',
       url = ''https://wiki.tinybird.co/doc/a'', file_path = ''/tmp/plaintext/wiki_docs_a.txt'',
       content_hash = ''h1''\<rparr>"
     "\<lparr>rf_id = ''f1'', rf_name = ''wiki_docs_a.txt'',
         rf_metadata = Some [(''source'', ''wiki_docs''), (''last_updated'', ''1000''),
                             (''content_hash'', ''h0'')]\<rparr>"
     "[(''source'', ''wiki_docs''), (''last_updated'', ''1000''), (''content_hash'', ''h0'')]"
     "''1000''" int_decimal "[]"]
    imprecise_newer_window [of 91000 1000
     "existing_files_of [\<lparr>rf_id = ''f1'', rf_name = ''wiki_docs_a.txt'',
         rf_metadata = Some [(''source'', ''wiki_docs''), (''last_updated'', ''1000''),
                             (''content_hash'', ''h0'')]\<rparr>]"
     "\<lparr>source = ''wiki_docs'', file_name = ''wiki_docs_a.txt'', last_updated = ''91000.0'',
       url = ''https://wiki.tinybird.co/doc/a'', file_path = ''/tmp/plaintext/wiki_docs_a.txt'',
       content_hash = ''h1''\<rparr>"
     "\<lparr>rf_id = ''f1'', rf_name = ''wiki_docs_a.txt'',
         rf_metadata = Some [(''source'', ''wiki_docs''), (''last_updated'', ''1000''),
                             (''content_hash'', ''h0'')]\<rparr>"
     "[(''source'', ''wiki_docs''), (''last_updated'', ''1000''), (''content_hash'', ''h0'')]"
     "''1000''" int_decimal "[]"]
  by (simp add: existing_files_of_def int_decimal_def split_dot_def truthy_def is_newer_def)


text \<open>
  The theorem at a table that already holds another event of the channel: after the
  mark the check is true for the marked event, and false for a third event that was
  never marked.
\<close>

theorem mark_then_check_witness:
  "fst (is_duplicate_request
          (fst (mark_request_started 1700003600
                  \<lparr>items = [(''C123'', ''1699990000.000300'') \<mapsto> 1699993600],
                    read_error = None, write_error = None\<rparr>
                  \<lparr>channel_id = ''C123'', event_ts = ''1700000000.000100''\<rparr>))
          \<lparr>channel_id = ''C123'', event_ts = ''1700000000.000100''\<rparr>) = True
   \<and> fst (is_duplicate_request
          (fst (mark_request_started 1700003600
                  \<lparr>items = [(''C123'', ''1699990000.000300'') \<mapsto> 1699993600],
                    read_error = None, write_error = None\<rparr>
                  \<lparr>channel_id = ''C123'', event_ts = ''1700000000.000100''\<rparr>))
          \<lparr>channel_id = ''C123'', event_ts = ''1700000000.000200''\<rparr>) = False"
  using mark_then_check [of
      "\<lparr>items = [(''C123'', ''1699990000.000300'') \<mapsto> 1699993600],
        read_error = None, write_error = None\<rparr>"
      1700003600 "\<lparr>channel_id = ''C123'', event_ts = ''1700000000.000100''\<rparr>"]
  by simp

text \<open>
  The theorem at a table whose reads and writes raise.
\<close>

theorem dedup_fails_open_witness:
  "is_duplicate_request
     \<lparr>items = [(''C123'', ''1700000000.000100'') \<mapsto> 1700003600],
       read_error = Some (Exn ''ClientError'' ''throttled''),
       write_error = Some (Exn ''ClientError'' ''throttled'')\<rparr>
     \<lparr>channel_id = ''C123'', event_ts = ''1700000000.000100''\<rparr>
     = (False, [(''error'', ''Error checking duplicate request: throttled'')])
   \<and> mark_request_started 1700003600
     \<lparr>items = [(''C123'', ''1700000000.000100'') \<mapsto> 1700003600],
       read_error = Some (Exn ''ClientError'' ''throttled''),
       write_error = Some (Exn ''ClientError'' ''throttled'')\<rparr>
     \<lparr>channel_id = ''C123'', event_ts = ''1700000000.000200''\<rparr>
     = (\<lparr>items = [(''C123'', ''1700000000.000100'') \<mapsto> 1700003600],
       read_error = Some (Exn ''ClientError'' ''throttled''),
       write_error = Some (Exn ''ClientError'' ''throttled'')\<rparr>,
        [(''error'', ''Error marking request: throttled'')])"
  using dedup_fails_open [of
      "\<lparr>items = [(''C123'', ''1700000000.000100'') \<mapsto> 1700003600],
       read_error = Some (Exn ''ClientError'' ''throttled''),
       write_error = Some (Exn ''ClientError'' ''throttled'')\<rparr>"
      "Exn ''ClientError'' ''throttled''"
      "\<lparr>channel_id = ''C123'', event_ts = ''1700000000.000100''\<rparr>"
      1700003600]
    dedup_fails_open [of
      "\<lparr>items = [(''C123'', ''1700000000.000100'') \<mapsto> 1700003600],
       read_error = Some (Exn ''ClientError'' ''throttled''),
       write_error = Some (Exn ''ClientError'' ''throttled'')\<rparr>"
      "Exn ''ClientError'' ''throttled''"
      "\<lparr>channel_id = ''C123'', event_ts = ''1700000000.000200''\<rparr>"
      1700003600]
  by simp

text \<open>
  The theorem at an answer citing a file that has no metadata.
\<close>

theorem provider_response_fallbacks_witness:
  "get_provider_response (\<lambda>c. ''ChatModel('' @ chat_content c @ '')'')
     (Inr (RespChat \<lparr>chat_content = ''Use a materialized view.'',
                      chat_citations = [\<lparr>raw_position = 3,
                         raw_references = [\<lparr>file_name_raw = ''wiki_docs_a.txt'',
                                            file_metadata_raw = None\<rparr>]\<rparr>]\<rparr>))
     = ''ChatModel(Use a materialized view.)''"
  using provider_response_fallbacks [of "\<lambda>c. ''ChatModel('' @ chat_content c @ '')''"
      "Exn ''AttributeError'' (sq @ ''NoneType'' @ sq @ '' object has no attribute '' @ sq @ ''get'' @ sq)"
      "RespChat \<lparr>chat_content = ''Use a materialized view.'',
                      chat_citations = [\<lparr>raw_position = 3,
                         raw_references = [\<lparr>file_name_raw = ''wiki_docs_a.txt'',
                                            file_metadata_raw = None\<rparr>]\<rparr>]\<rparr>"]
  by (simp add: format_response_with_citations_def normalize_pinecone_citations_def normalize_ref_def)

section \<open>The citation formatter's lookups and sets\<close>

text \<open>
  Two facts behind the model of \<open>format_normalized_response\<close>. Every URL whose number
  is looked up, in \<open>all_references\<close> or in a set of \<open>citations_by_position\<close>, is a key
  of \<open>reference_numbers\<close>, so \<open>reference_numbers[x]\<close> never raises. And the numbers of
  different URLs differ, so the lists that \<open>sorted(..., key=...)\<close> makes of a set do not
  depend on the order in which the set is kept.
\<close>

lemma all_references_numbered:
  "set (all_references_of cs) = fst ` set (reference_numbers_of cs)"
proof -
  obtain rn n ar where st: "foldl assign_ref ([], 1, []) (concat (map references cs)) = (rn, n, ar)"
    by (cases "foldl assign_ref ([], 1, []) (concat (map references cs))") auto
  from first_pass_invariant[of "concat (map references cs)"] st have "ar = map fst rn" by simp
  then show ?thesis
    by (simp only: all_references_of_def reference_numbers_of_def first_pass_flat st) simp
qed

lemma all_references_are_all_urls:
  "fst ` set (reference_numbers_of cs) = set (all_urls cs)"
proof -
  have "fst ` set (reference_numbers_of cs) = {u. map_of (reference_numbers_of cs) u \<noteq> None}"
    by (auto simp: map_of_eq_None_iff)
  also have "\<dots> = set (all_urls cs)"
    by (auto simp: reference_numbers_lookup)
  finally show ?thesis .
qed

lemma update_values_subset: "snd ` set (AList.update k v al) \<subseteq> insert v (snd ` set al)"
  by (induction al) auto

lemma add_position_ref_urls:
  "\<Union>(set ` snd ` set (add_position_ref pos cbp r)) \<subseteq> insert (ref_url r) (\<Union>(set ` snd ` set cbp))"
proof
  fix u assume "u \<in> \<Union>(set ` snd ` set (add_position_ref pos cbp r))"
  then obtain s where s: "s \<in> snd ` set (add_position_ref pos cbp r)" and u: "u \<in> set s"
    by auto
  define cbp1 where "cbp1 = (if map_of cbp pos = None then AList.update pos [] cbp else cbp)"
  define old where "old = (case map_of cbp1 pos of Some s \<Rightarrow> s | None \<Rightarrow> [])"
  have c1: "snd ` set cbp1 \<subseteq> insert [] (snd ` set cbp)"
    using update_values_subset[of pos "[]" cbp] by (auto simp: cbp1_def)
  have old: "old = [] \<or> old \<in> snd ` set cbp"
  proof (cases "map_of cbp1 pos")
    case None
    then show ?thesis by (simp add: old_def)
  next
    case (Some s')
    then have "s' \<in> snd ` set cbp1" by (metis map_of_SomeD image_eqI snd_conv)
    with c1 Some show ?thesis by (auto simp: old_def)
  qed
  have "add_position_ref pos cbp r = AList.update pos (set_add (ref_url r) old) cbp1"
    by (simp add: add_position_ref_def Let_def cbp1_def old_def)
  then have "s = set_add (ref_url r) old \<or> s \<in> snd ` set cbp1"
    using s update_values_subset[of pos "set_add (ref_url r) old" cbp1] by auto
  then show "u \<in> insert (ref_url r) (\<Union>(set ` snd ` set cbp))"
  proof
    assume "s = set_add (ref_url r) old"
    with u have "u = ref_url r \<or> u \<in> set old"
      by (simp add: set_add_def split: if_splits)
    with old show ?thesis by auto
  next
    assume "s \<in> snd ` set cbp1"
    with c1 have "s = [] \<or> s \<in> snd ` set cbp" by blast
    with u show ?thesis by auto
  qed
qed

lemma citations_by_position_flat:
  "citations_by_position cs =
     foldl (\<lambda>cbp (p, r). add_position_ref p cbp r) []
       (concat (map (\<lambda>c. map (Pair (position c)) (references c)) cs))"
proof -
  have inner: "foldl (add_position_ref p) cbp rs =
        foldl (\<lambda>cbp (p, r). add_position_ref p cbp r) cbp (map (Pair p) rs)" for p cbp rs
    by (induction rs arbitrary: cbp) simp_all
  have "foldl (\<lambda>cbp c. foldl (add_position_ref (position c)) cbp (references c)) s cs =
        foldl (\<lambda>cbp (p, r). add_position_ref p cbp r) s
          (concat (map (\<lambda>c. map (Pair (position c)) (references c)) cs))" for s
    by (induction cs arbitrary: s) (simp_all add: inner)
  then show ?thesis by (simp add: citations_by_position_def)
qed

lemma fold_add_position_ref_urls:
  "\<Union>(set ` snd ` set (foldl (\<lambda>cbp (p, r). add_position_ref p cbp r) cbp prs))
     \<subseteq> \<Union>(set ` snd ` set cbp) \<union> ref_url ` snd ` set prs"
proof (induction prs rule: rev_induct)
  case Nil
  show ?case by simp
next
  case (snoc x xs)
  let ?F = "\<lambda>cbp (p, r). add_position_ref p cbp r"
  obtain p r where x: "x = (p, r)" by (cases x)
  have step: "foldl ?F cbp (xs @ [x]) = add_position_ref p (foldl ?F cbp xs) r"
    by (simp add: x)
  have "\<Union>(set ` snd ` set (foldl ?F cbp (xs @ [x])))
          \<subseteq> insert (ref_url r) (\<Union>(set ` snd ` set (foldl ?F cbp xs)))"
    unfolding step by (rule add_position_ref_urls)
  also have "\<dots> \<subseteq> insert (ref_url r) (\<Union>(set ` snd ` set cbp) \<union> ref_url ` snd ` set xs)"
    by (rule insert_mono) (rule snoc.IH)
  also have "\<dots> = \<Union>(set ` snd ` set cbp) \<union> ref_url ` snd ` set (xs @ [x])"
    by (simp add: x)
  finally show ?case .
qed

lemma citations_by_position_numbered:
  assumes "(p, s) \<in> set (citations_by_position cs)" "u \<in> set s"
  shows "u \<in> fst ` set (reference_numbers_of cs)"
proof -
  have "u \<in> \<Union>(set ` snd ` set (citations_by_position cs))"
    using assms by force
  then have "u \<in> ref_url ` snd ` set (concat (map (\<lambda>c. map (Pair (position c)) (references c)) cs))"
    using fold_add_position_ref_urls[of "[]" "concat (map (\<lambda>c. map (Pair (position c)) (references c)) cs)"]
    unfolding citations_by_position_flat by auto
  then obtain c r where "c \<in> set cs" "r \<in> set (references c)" "u = ref_url r"
    by auto
  then have "u \<in> set (all_urls cs)"
    unfolding all_urls_def by force
  then show ?thesis by (simp add: all_references_are_all_urls)
qed

lemma filter_eq_singleton:
  "distinct zs \<Longrightarrow> k \<in> set zs \<Longrightarrow> filter (\<lambda>x. k = x) zs = [k]"
  by (induction zs) (auto simp: filter_empty_conv)

lemma sort_key_order_irrelevant:
  assumes "distinct xs" "distinct ys" "set xs = set ys" "inj_on f (set xs)"
  shows "sort_key f xs = sort_key f ys"
proof (rule properties_for_sort_key)
  show "mset (sort_key f ys) = mset xs"
    using assms by (simp add: set_eq_iff_mset_eq_distinct)
  show "sorted (map f (sort_key f ys))" by simp
  fix k assume k: "k \<in> set (sort_key f ys)"
  have one: "filter (\<lambda>x. f k = f x) zs = [k]" if "distinct zs" "k \<in> set zs" "inj_on f (set zs)" for zs
  proof -
    have "filter (\<lambda>x. f k = f x) zs = filter (\<lambda>x. k = x) zs"
      using that by (intro filter_cong) (auto dest: inj_onD)
    then show ?thesis using that by (simp add: filter_eq_singleton)
  qed
  show "filter (\<lambda>x. f k = f x) (sort_key f ys) = filter (\<lambda>x. f k = f x) xs"
    using one[of xs] one[of "sort_key f ys"] k assms by simp
qed

lemma first_pass_numbers:
  "case foldl assign_ref ([], 1, []) rs of (rn, n, ar) \<Rightarrow> map snd rn = [1..<n]"
proof (induction rs rule: rev_induct)
  case Nil
  show ?case by simp
next
  case (snoc r rs)
  obtain rn n ar where st: "foldl assign_ref ([], 1, []) rs = (rn, n, ar)"
    by (cases "foldl assign_ref ([], 1, []) rs") auto
  with snoc have rn: "map snd rn = [1..<n]" by simp
  have n: "1 \<le> n" using first_pass_invariant[of rs] st by auto
  have unf: "foldl assign_ref ([], 1, []) (rs @ [r]) = assign_ref (rn, n, ar) r"
    by (simp only: foldl_append foldl_Cons foldl_Nil st)
  show ?case
    unfolding unf using rn n by (simp add: assign_ref_def)
qed

lemma ref_number_inj:
  "inj_on (ref_number (reference_numbers_of cs)) (set (all_references_of cs))"
proof -
  obtain rn n ar where st: "foldl assign_ref ([], 1, []) (concat (map references cs)) = (rn, n, ar)"
    by (cases "foldl assign_ref ([], 1, []) (concat (map references cs))") auto
  have rn: "reference_numbers_of cs = rn" and ar: "all_references_of cs = ar"
    by (simp_all only: reference_numbers_of_def all_references_of_def first_pass_flat st fst_conv snd_conv)
  from first_pass_invariant[of "concat (map references cs)"] st
  have keys: "ar = map fst rn" "distinct ar" by auto
  from first_pass_numbers[of "concat (map references cs)"] st
  have vals: "distinct (map snd rn)" by simp
  show ?thesis
    unfolding rn ar
  proof (rule inj_onI)
    fix u v assume u: "u \<in> set ar" and v: "v \<in> set ar"
      and eq: "ref_number rn u = ref_number rn v"
    from u keys obtain a where a: "(u, a) \<in> set rn" by auto
    from v keys obtain b where b: "(v, b) \<in> set rn" by auto
    from a keys have "map_of rn u = Some a" by simp
    moreover from b keys have "map_of rn v = Some b" by simp
    ultimately have "a = b" using eq by (simp add: ref_number_def)
    with a b vals show "u = v"
      by (metis distinct_map inj_on_eq_iff snd_conv fst_conv)
  qed
qed

lemma references_block_order_irrelevant:
  assumes "distinct xs" "set xs = set (all_references_of cs)"
  shows "references_block (reference_numbers_of cs) xs
         = references_block (reference_numbers_of cs) (all_references_of cs)"
proof -
  obtain rn n ar where st: "foldl assign_ref ([], 1, []) (concat (map references cs)) = (rn, n, ar)"
    by (cases "foldl assign_ref ([], 1, []) (concat (map references cs))") auto
  from first_pass_invariant[of "concat (map references cs)"] st have "distinct ar" by auto
  then have d: "distinct (all_references_of cs)"
    by (simp only: all_references_of_def first_pass_flat st snd_conv)
  have "sort_key (ref_number (reference_numbers_of cs)) xs
        = sort_key (ref_number (reference_numbers_of cs)) (all_references_of cs)"
    using assms d ref_number_inj[of cs] by (intro sort_key_order_irrelevant) simp_all
  then show ?thesis by (simp add: references_block_def)
qed

lemma superscript_order_irrelevant:
  assumes "distinct xs" "distinct ys" "set xs = set ys" "set xs \<subseteq> set (all_references_of cs)"
  shows "superscript (reference_numbers_of cs) xs = superscript (reference_numbers_of cs) ys"
proof -
  have "inj_on (ref_number (reference_numbers_of cs)) (set xs)"
    using ref_number_inj[of cs] assms(4) by (rule inj_on_subset)
  then have "sort_key (ref_number (reference_numbers_of cs)) xs
        = sort_key (ref_number (reference_numbers_of cs)) ys"
    using assms by (intro sort_key_order_irrelevant) simp_all
  then show ?thesis by (simp add: superscript_def)
qed

end
